theory Spec2Isabelle
  imports Main
begin

section \<open>The chat-session controller of FloatChat (src/context/Context.jsx)\<close>

text \<open>
  The controller is a React context provider. Its state variables (\<open>useState\<close>) and its two
  refs (\<open>useRef\<close>) are the fields of one record; every handler takes the state and returns
  the updated one. Three things of the host are made explicit, because the claims are about
  them:
  \<^item> the timer queue of \<open>setTimeout\<close>: a list of pending timers, each with its id, its due
    time on a virtual clock and its callback;
  \<^item> the \<open>fetch\<close> calls awaiting their response: a list of pending requests;
  \<^item> closures: a timer callback and the continuation of \<open>onSent\<close> after \<open>await\<close> read the
    state variables of the render in which \<open>onSent\<close> was called (\<open>isStopped\<close>,
    \<open>currentChatIndex\<close>, \<open>userQuery\<close>), not the current ones; the captured values are stored
    in the timer or request. Functional updaters (\<open>setX(prev => ...)\<close>) and refs read the
    current state.
  A handler called by the user (\<open>onSent\<close>, \<open>stopGeneration\<close>, \<open>newChat\<close>, \<open>openChat\<close>) belongs
  to the latest render, so it reads the current state: the component renders between two
  events. An exception thrown inside a state updater is not caught by the \<open>try\<close> of
  \<open>onSent\<close> (the updater runs while React renders): it is the error value of the model, and
  a run ends there.

  Strings are lists of 8-bit code units; \<open>substring(0, 20)\<close> is \<open>take 20\<close>. The function
  \<open>updateChatMemory\<close> of the provider is neither called nor exported and has no counterpart
  here.
\<close>

subsection \<open>Data\<close>

record message =
  question :: string
  answer :: "string option"
  graph_path :: "string option"

record memory_entry =
  mem_question :: string
  mem_answer :: string

record chat =
  title :: string
  messages :: "message list"
  memory :: "memory_entry list"
  isMemoryFull :: bool

datatype error = TypeError

text \<open>
  A timer callback: the one of \<open>delayPara\<close> (captured \<open>isStopped\<close>, the word to append), or
  the finalising one of \<open>onSent\<close> (captured \<open>isStopped\<close>, captured \<open>currentChatIndex\<close>,
  \<open>userQuery\<close>, \<open>botResponse\<close>).
\<close>

datatype callback =
  Reveal bool string
| Finalize bool "nat option" string string

record timer =
  tid :: nat
  due :: nat
  cb :: callback

text \<open>
  A pending \<open>fetch\<close>: its abort controller's id, the request body, and what the continuation
  of \<open>onSent\<close> captured.
\<close>

record request =
  rid :: nat
  query :: string
  req_isThinkingMode :: bool
  chatMemory :: "memory_entry list"
  req_currentChatIndex :: "nat option"
  req_isStopped :: bool

text \<open>
  What the service call comes back with: the promise of \<open>fetch\<close> rejects (network error), or
  a response arrives with its status and the \<open>message\<close> and \<open>graph_path\<close> of its JSON body
  (\<open>None\<close> for null or absent).
\<close>

datatype outcome =
  Rejected
| Response nat "string option" "string option"

record state =
  input :: string
  recentPrompt :: string
  prevPrompts :: "string list"
  showResult :: bool
  loading :: bool
  resultData :: string
  conversationHistory :: "message list"
  chats :: "chat list"
  currentChatIndex :: "nat option"
  isStopped :: bool
  isThinkingMode :: bool
  currentChatIsFull :: bool
  abortControllerRef :: "nat option"
  timeoutRefs :: "nat list"
  clock :: nat
  timers :: "timer list"
  requests :: "request list"
  nextId :: nat

definition memoryLimit :: nat where
  "memoryLimit = 10"

definition init :: state where
  "init = \<lparr> input = [], recentPrompt = [], prevPrompts = [], showResult = False,
      loading = False, resultData = [], conversationHistory = [], chats = [],
      currentChatIndex = None, isStopped = False, isThinkingMode = False,
      currentChatIsFull = False, abortControllerRef = None, timeoutRefs = [],
      clock = 0, timers = [], requests = [], nextId = 0 \<rparr>"

subsection \<open>Strings of the host language\<close>

text \<open>\<open>s.split(" ")\<close>: the pieces between the separators, empty pieces kept.\<close>

fun split_str :: "char \<Rightarrow> string \<Rightarrow> string list" where
  "split_str sep [] = [[]]"
| "split_str sep (c # cs) =
     (if c = sep then [] # split_str sep cs
      else (case split_str sep cs of
              [] \<Rightarrow> [[c]]
            | w # ws \<Rightarrow> (c # w) # ws))"

text \<open>The white space and line terminators that \<open>trim\<close> removes, among 8-bit code units.\<close>

definition isWhiteSpace :: "char \<Rightarrow> bool" where
  "isWhiteSpace c \<longleftrightarrow>
     c = CHR 0x09 \<or> c = CHR 0x0A \<or> c = CHR 0x0B \<or> c = CHR 0x0C \<or> c = CHR 0x0D
     \<or> c = CHR 0x20 \<or> c = CHR 0xA0"

definition trim :: "string \<Rightarrow> string" where
  "trim s = rev (dropWhile isWhiteSpace (rev (dropWhile isWhiteSpace s)))"

text \<open>A string in a condition is true when it is not empty; \<open>x || null\<close>.\<close>

definition truthy :: "string \<Rightarrow> bool" where
  "truthy s \<longleftrightarrow> s \<noteq> []"

definition or_null :: "string option \<Rightarrow> string option" where
  "or_null x = (case x of None \<Rightarrow> None | Some v \<Rightarrow> if truthy v then Some v else None)"

definition apology :: string where
  "apology = ''Sorry, I'm having trouble connecting to my backend.''"

subsection \<open>Timers and the abort controller\<close>

text \<open>\<open>timeoutRefs.current.forEach(clearTimeout); timeoutRefs.current = []\<close>\<close>

definition clearTimeouts :: "state \<Rightarrow> state" where
  "clearTimeouts s =
     s\<lparr> timers := filter (\<lambda>t. tid t \<notin> set (timeoutRefs s)) (timers s), timeoutRefs := [] \<rparr>"

text \<open>
  \<open>abortControllerRef.current.abort()\<close>: the pending fetch of that controller rejects with
  an AbortError, which the \<open>catch\<close> of \<open>onSent\<close> only logs; the request is gone.
\<close>

definition abort :: "state \<Rightarrow> state" where
  "abort s =
     (case abortControllerRef s of
        None \<Rightarrow> s
      | Some a \<Rightarrow> s\<lparr> requests := filter (\<lambda>r. rid r \<noteq> a) (requests s) \<rparr>)"

text \<open>\<open>setTimeout(callback, delay)\<close> followed by \<open>timeoutRefs.current.push(id)\<close>\<close>

definition setTimeout :: "callback \<Rightarrow> nat \<Rightarrow> state \<Rightarrow> state" where
  "setTimeout f delay s =
     s\<lparr> timers := timers s @ [\<lparr> tid = nextId s, due = clock s + delay, cb = f \<rparr>],
        timeoutRefs := timeoutRefs s @ [nextId s],
        nextId := nextId s + 1 \<rparr>"

definition delayPara :: "bool \<Rightarrow> nat \<Rightarrow> string \<Rightarrow> state \<Rightarrow> state" where
  "delayPara stopped index nextWord s = setTimeout (Reveal stopped nextWord) (75 * index) s"

subsection \<open>The handlers\<close>

definition newChat :: "state \<Rightarrow> state" where
  "newChat s =
     s\<lparr> loading := False, showResult := False, conversationHistory := [],
        recentPrompt := [], resultData := [], currentChatIndex := None,
        currentChatIsFull := False, isThinkingMode := False \<rparr>"

definition toggleThinkingMode :: "state \<Rightarrow> state" where
  "toggleThinkingMode s = s\<lparr> isThinkingMode := \<not> isThinkingMode s \<rparr>"

definition setInput :: "string \<Rightarrow> state \<Rightarrow> state" where
  "setInput v s = s\<lparr> input := v \<rparr>"

text \<open>The index is a number of the host language, here an integer.\<close>

definition openChat :: "int \<Rightarrow> state \<Rightarrow> state" where
  "openChat index s =
     (if index < 0 \<or> index \<ge> int (length (chats s)) then s
      else s\<lparr> currentChatIndex := Some (nat index),
              conversationHistory := messages (chats s ! nat index),
              showResult := True, loading := False, recentPrompt := [], resultData := [],
              currentChatIsFull := isMemoryFull (chats s ! nat index) \<rparr>)"

text \<open>
  \<open>stopGeneration\<close>. With revealed text, the updater of \<open>setChats\<close> reads
  \<open>nextChats[currentChatIndex]\<close> and spreads its \<open>messages\<close>; when the index is null or not
  an index of the list, the element is undefined, so is \<open>messages\<close>, and spreading it throws.
\<close>

definition stopGeneration :: "state \<Rightarrow> error + state" where
  "stopGeneration s =
     (let s1 = abort (clearTimeouts s)
      in if truthy (trim (resultData s)) then
           (let newMessage = \<lparr> question = recentPrompt s, answer = Some (resultData s),
                                graph_path = None \<rparr>
            in case currentChatIndex s of
                 None \<Rightarrow> Inl TypeError
               | Some i \<Rightarrow>
                   if i < length (chats s) then
                     Inr (s1\<lparr> conversationHistory := conversationHistory s @ [newMessage],
                              chats := (chats s)[i := (chats s ! i)
                                 \<lparr> messages := messages (chats s ! i) @ [newMessage] \<rparr>],
                              loading := False, resultData := [], isStopped := False,
                              input := recentPrompt s \<rparr>)
                   else Inl TypeError)
         else Inr (s1\<lparr> loading := False, resultData := [], isStopped := False,
                        input := recentPrompt s \<rparr>))"

text \<open>The \<open>catch\<close> branch of \<open>onSent\<close> for an error that is not an AbortError.\<close>

definition onSent_catch :: "string \<Rightarrow> state \<Rightarrow> state" where
  "onSent_catch userQuery s =
     s\<lparr> conversationHistory := conversationHistory s @
          [\<lparr> question = userQuery, answer = Some apology, graph_path = None \<rparr>],
        loading := False, resultData := [], input := [] \<rparr>"

text \<open>
  \<open>onSent\<close> up to its \<open>await fetch\<close>. Reading \<open>chats[currentChatIndex].memory\<close> at an index
  that is not one of the list throws inside the \<open>try\<close>, which the \<open>catch\<close> branch handles.
\<close>

definition onSent :: "string option \<Rightarrow> state \<Rightarrow> state" where
  "onSent prompt s =
     (if currentChatIsFull s then s
      else
        (let userQuery = (case prompt of Some p \<Rightarrow> p | None \<Rightarrow> input s);
             s1 = (clearTimeouts (s\<lparr> resultData := [], loading := True, showResult := True,
                                     isStopped := False \<rparr>))\<lparr> recentPrompt := userQuery \<rparr>;
             s2 = s1\<lparr> abortControllerRef := Some (nextId s1), nextId := nextId s1 + 1 \<rparr>
         in case (case currentChatIndex s of
                    None \<Rightarrow> Some []
                  | Some i \<Rightarrow> if i < length (chats s) then Some (memory (chats s ! i)) else None) of
              None \<Rightarrow> onSent_catch userQuery s2
            | Some currentChatMemory \<Rightarrow>
                s2\<lparr> requests := requests s2 @
                     [\<lparr> rid = nextId s1, query = userQuery,
                        req_isThinkingMode = isThinkingMode s,
                        chatMemory = currentChatMemory,
                        req_currentChatIndex = currentChatIndex s,
                        req_isStopped = isStopped s \<rparr>] \<rparr>))"

text \<open>The commit of a chart exchange (the \<open>graphPath\<close> branch).\<close>

definition commitGraph :: "nat option \<Rightarrow> string \<Rightarrow> string \<Rightarrow> state \<Rightarrow> error + state" where
  "commitGraph idx userQuery graphPath s =
     (let newMessage = \<lparr> question = userQuery, answer = None, graph_path = Some graphPath \<rparr>;
          s1 = s\<lparr> conversationHistory := conversationHistory s @ [newMessage] \<rparr>
      in case idx of
           None \<Rightarrow>
             Inr (s1\<lparr> chats := chats s @
                        [\<lparr> title = take 20 userQuery, messages = [newMessage], memory = [],
                           isMemoryFull = False \<rparr>],
                      prevPrompts := prevPrompts s @ [take 20 userQuery],
                      currentChatIndex := Some (length (chats s)),
                      loading := False, resultData := [], input := [] \<rparr>)
         | Some i \<Rightarrow>
             if i < length (chats s) then
               Inr (s1\<lparr> chats := (chats s)[i := (chats s ! i)
                          \<lparr> messages := messages (chats s ! i) @ [newMessage] \<rparr>],
                        loading := False, resultData := [], input := [] \<rparr>)
             else Inl TypeError)"

text \<open>The commit of a text exchange (the body of the finalising timer).\<close>

definition commitText :: "nat option \<Rightarrow> string \<Rightarrow> string \<Rightarrow> state \<Rightarrow> error + state" where
  "commitText idx userQuery botResponse s =
     (let newMessage = \<lparr> question = userQuery, answer = Some botResponse, graph_path = None \<rparr>;
          entry = \<lparr> mem_question = userQuery, mem_answer = botResponse \<rparr>;
          s1 = s\<lparr> conversationHistory := conversationHistory s @ [newMessage] \<rparr>
      in case idx of
           None \<Rightarrow>
             (let created = \<lparr> title = take 20 userQuery, messages = [newMessage],
                              memory = [entry], isMemoryFull = False \<rparr>;
                  full = (length (memory created) \<ge> memoryLimit)
              in Inr (s1\<lparr> chats := chats s @
                             [if full then created\<lparr> isMemoryFull := True \<rparr> else created],
                           prevPrompts := prevPrompts s @ [take 20 userQuery],
                           currentChatIndex := Some (length (chats s)),
                           currentChatIsFull := (if full then True else currentChatIsFull s),
                           loading := False, resultData := [], input := [] \<rparr>))
         | Some i \<Rightarrow>
             if i < length (chats s) then
               (let updatedChat = (chats s ! i)
                      \<lparr> messages := messages (chats s ! i) @ [newMessage],
                        memory := memory (chats s ! i) @ [entry] \<rparr>;
                    full = (length (memory updatedChat) \<ge> memoryLimit)
                in Inr (s1\<lparr> chats := (chats s)
                               [i := if full then updatedChat\<lparr> isMemoryFull := True \<rparr>
                                     else updatedChat],
                             currentChatIsFull := (if full then True else currentChatIsFull s),
                             loading := False, resultData := [], input := [] \<rparr>))
             else Inl TypeError)"

text \<open>The loop over the words of the answer: \<open>delayPara(i, nextWord + " ")\<close>.\<close>

fun scheduleWords :: "bool \<Rightarrow> nat \<Rightarrow> string list \<Rightarrow> state \<Rightarrow> state" where
  "scheduleWords stopped i [] s = s"
| "scheduleWords stopped i (w # ws) s =
     scheduleWords stopped (i + 1) ws (delayPara stopped i (w @ '' '') s)"

definition startPlayback :: "request \<Rightarrow> string \<Rightarrow> state \<Rightarrow> state" where
  "startPlayback r botResponse s =
     (let newResponseArray = split_str (CHR '' '') botResponse;
          s1 = scheduleWords (req_isStopped r) 0 newResponseArray s;
          totalDurationMs = 75 * length newResponseArray + 100
      in setTimeout (Finalize (req_isStopped r) (req_currentChatIndex r) (query r) botResponse)
           totalDurationMs s1)"

text \<open>
  The continuation of \<open>onSent\<close> when the call of request \<open>r\<close> comes back. A response whose
  status is not 2xx throws; so does \<open>botResponse.split\<close> when the body has neither a chart
  nor a message.
\<close>

definition continue_onSent :: "request \<Rightarrow> outcome \<Rightarrow> state \<Rightarrow> error + state" where
  "continue_onSent r out s =
     (case out of
        Rejected \<Rightarrow> Inr (onSent_catch (query r) s)
      | Response status msg gp \<Rightarrow>
          if \<not> (200 \<le> status \<and> status \<le> 299) then Inr (onSent_catch (query r) s)
          else
            (case or_null gp of
               Some graphPath \<Rightarrow> commitGraph (req_currentChatIndex r) (query r) graphPath s
             | None \<Rightarrow>
                 (case or_null msg of
                    None \<Rightarrow> Inr (onSent_catch (query r) s)
                  | Some botResponse \<Rightarrow> Inr (startPlayback r botResponse s))))"

definition respond :: "nat \<Rightarrow> outcome \<Rightarrow> state \<Rightarrow> error + state" where
  "respond n out s =
     (case find (\<lambda>r. rid r = n) (requests s) of
        None \<Rightarrow> Inr s
      | Some r \<Rightarrow> continue_onSent r out (s\<lparr> requests := filter (\<lambda>q. rid q \<noteq> n) (requests s) \<rparr>))"

text \<open>A timer fires: it leaves the queue and its callback runs.\<close>

definition fire :: "timer \<Rightarrow> state \<Rightarrow> error + state" where
  "fire t s =
     (let s1 = s\<lparr> timers := filter (\<lambda>u. tid u \<noteq> tid t) (timers s),
                  clock := max (clock s) (due t) \<rparr>
      in case cb t of
           Reveal stopped nextWord \<Rightarrow>
             if \<not> stopped then Inr (s1\<lparr> resultData := resultData s1 @ nextWord \<rparr>) else Inr s1
         | Finalize stopped idx userQuery botResponse \<Rightarrow>
             if \<not> stopped then commitText idx userQuery botResponse s1 else Inr s1)"

fun fire_all :: "timer list \<Rightarrow> state \<Rightarrow> error + state" where
  "fire_all [] s = Inr s"
| "fire_all (t # ts) s = (case fire t s of Inl e \<Rightarrow> Inl e | Inr s' \<Rightarrow> fire_all ts s')"

text \<open>
  Time passes: the timers due by then fire, the earliest first, and among those due at the
  same time the one set first (the queue is in the order of creation, the sort is stable).
  No callback of this program sets or clears a timer, so the timers to fire are known at
  the start.
\<close>

definition elapse :: "nat \<Rightarrow> state \<Rightarrow> error + state" where
  "elapse d s =
     (case fire_all (sort_key due (filter (\<lambda>t. due t \<le> clock s + d) (timers s))) s of
        Inl e \<Rightarrow> Inl e
      | Inr s' \<Rightarrow> Inr (s'\<lparr> clock := clock s + d \<rparr>))"

subsection \<open>The input box of the main panel (src/components/Sidebar/Main/Main.jsx)\<close>

text \<open>
  \<open>handleSend\<close> and \<open>handleKeyPress\<close>, on the panel's own \<open>isPromptSent\<close> and the controller's
  state. The timer of \<open>handleSend\<close> only adds a style class to the search box.
\<close>

definition handleSend :: "bool \<times> state \<Rightarrow> bool \<times> state" where
  "handleSend p = (True, setInput [] (onSent None (snd p)))"

definition handleKeyPress :: "string \<Rightarrow> bool \<times> state \<Rightarrow> bool \<times> state" where
  "handleKeyPress key p =
     (if key = ''Enter'' \<and> truthy (trim (input (snd p))) then handleSend p else p)"

text \<open>
  The controls beside the input box: the stop button while loading, else the new-chat button
  when the session is full, else the send icon, whose click is \<open>handleSend\<close>, when the input
  is not empty.
\<close>

definition sendIconShown :: "state \<Rightarrow> bool" where
  "sendIconShown s \<longleftrightarrow> \<not> loading s \<and> \<not> currentChatIsFull s \<and> truthy (input s)"

subsection \<open>Runs\<close>

datatype event =
  Send "string option"
| Stop
| NewChat
| OpenChat int
| ToggleThinking
| SetInput string
| Respond nat outcome
| Elapse nat

fun step :: "event \<Rightarrow> state \<Rightarrow> error + state" where
  "step (Send p) s = Inr (onSent p s)"
| "step Stop s = stopGeneration s"
| "step NewChat s = Inr (newChat s)"
| "step (OpenChat i) s = Inr (openChat i s)"
| "step ToggleThinking s = Inr (toggleThinkingMode s)"
| "step (SetInput v) s = Inr (setInput v s)"
| "step (Respond n out) s = respond n out s"
| "step (Elapse d) s = elapse d s"

fun run :: "event list \<Rightarrow> state \<Rightarrow> error + state" where
  "run [] s = Inr s"
| "run (e # es) s = (case step e s of Inl x \<Rightarrow> Inl x | Inr s' \<Rightarrow> run es s')"

section \<open>What holds in every state the controller can reach\<close>

text \<open>
  An index held by the controller, by a pending request or by a finalising timer is \<open>None\<close> or
  an index of the session list.
\<close>

fun idx_ok :: "nat \<Rightarrow> nat option \<Rightarrow> bool" where
  "idx_ok n None = True"
| "idx_ok n (Some i) = (i < n)"

fun cb_ok :: "nat \<Rightarrow> callback \<Rightarrow> bool" where
  "cb_ok n (Reveal stopped w) = True"
| "cb_ok n (Finalize stopped idx q a) = idx_ok n idx"

text \<open>A message has exactly one of \<open>answer\<close> and \<open>graph_path\<close>.\<close>

definition exactly_one :: "message \<Rightarrow> bool" where
  "exactly_one m \<longleftrightarrow> (answer m = None) \<noteq> (graph_path m = None)"

definition idx_inv :: "state \<Rightarrow> bool" where
  "idx_inv s \<longleftrightarrow> idx_ok (length (chats s)) (currentChatIndex s)
      \<and> (\<forall>r \<in> set (requests s). idx_ok (length (chats s)) (req_currentChatIndex r))
      \<and> (\<forall>t \<in> set (timers s). cb_ok (length (chats s)) (cb t))"

text \<open>When the active session is full, the controller's \<open>currentChatIsFull\<close> is set.\<close>

definition full_inv :: "state \<Rightarrow> bool" where
  "full_inv s \<longleftrightarrow> (\<forall>i. currentChatIndex s = Some i \<longrightarrow> isMemoryFull (chats s ! i) \<longrightarrow> currentChatIsFull s)"

text \<open>Every pending timer is listed in \<open>timeoutRefs\<close>.\<close>

definition timers_inv :: "state \<Rightarrow> bool" where
  "timers_inv s \<longleftrightarrow> (\<forall>t \<in> set (timers s). tid t \<in> set (timeoutRefs s))"

definition msgs_inv :: "state \<Rightarrow> bool" where
  "msgs_inv s \<longleftrightarrow> (\<forall>i < length (chats s). \<forall>m \<in> set (messages (chats s ! i)). exactly_one m)
      \<and> (\<forall>m \<in> set (conversationHistory s). exactly_one m)"

text \<open>A session whose memory has reached the limit is marked full.\<close>

definition mem_inv :: "state \<Rightarrow> bool" where
  "mem_inv s \<longleftrightarrow> (\<forall>i < length (chats s). memoryLimit \<le> length (memory (chats s ! i)) \<longrightarrow> isMemoryFull (chats s ! i))"

text \<open>The ids of the pending requests have been handed out; \<open>isStopped\<close> is never left set.\<close>

definition ids_inv :: "state \<Rightarrow> bool" where
  "ids_inv s \<longleftrightarrow> (\<forall>r \<in> set (requests s). rid r < nextId s) \<and> \<not> isStopped s"

definition inv :: "state \<Rightarrow> bool" where
  "inv s \<longleftrightarrow> idx_inv s \<and> full_inv s \<and> timers_inv s \<and> msgs_inv s \<and> mem_inv s \<and> ids_inv s"

text \<open>
  From one state to a later one, no session is lost and no \<open>isMemoryFull\<close> is reset.
\<close>

definition flags_kept :: "state \<Rightarrow> state \<Rightarrow> bool" where
  "flags_kept s s' \<longleftrightarrow> length (chats s) \<le> length (chats s')
     \<and> (\<forall>j < length (chats s). isMemoryFull (chats s ! j) \<longrightarrow> isMemoryFull (chats s' ! j))"

section \<open>Observations and example runs\<close>

text \<open>
  One complete exchange in the active session: the question, the answer \<open>a\<close> of the service
  to the request (whose id is \<open>3 * k\<close> in the \<open>k\<close>-th exchange, each exchange taking one
  request id and two timer ids), and the playback of its single word up to the commit.
\<close>

definition exchange :: "nat \<Rightarrow> event list" where
  "exchange k = [Send (Some ''q''), Respond (3 * k) (Response 200 (Some ''a'') None), Elapse 175]"

definition ten_exchanges :: "event list" where
  "ten_exchanges = concat (map exchange [0..<10])"

definition ok_text :: "string \<Rightarrow> outcome" where
  "ok_text a = Response 200 (Some a) None"

definition text_msg :: "string \<Rightarrow> string \<Rightarrow> message" where
  "text_msg q a = \<lparr> question = q, answer = Some a, graph_path = None \<rparr>"

text \<open>What the user sees of the sessions: the active index, the displayed history, the stored
  messages of each session.\<close>

definition sessions_view :: "state \<Rightarrow> nat option \<times> message list \<times> message list list" where
  "sessions_view s = (currentChatIndex s, conversationHistory s, map messages (chats s))"

text \<open>Two sessions, each with one exchange; the second one is active.\<close>

definition two_sessions :: "event list" where
  "two_sessions =
     [Send (Some ''a''), Respond 0 (ok_text ''x''), Elapse 175,
      NewChat, Send (Some ''b''), Respond 3 (ok_text ''y''), Elapse 175]"

text \<open>A third question in the second session; the user opens the first session while the
  call is pending; then the answer arrives and its timers run.\<close>

definition switch_during_exchange :: "event list" where
  "switch_during_exchange =
     two_sessions @ [Send (Some ''c''), OpenChat 0, Respond 6 (ok_text ''z''), Elapse 175]"

text \<open>A first question; the user starts a new chat while the call is pending.\<close>

definition reset_during_exchange :: "event list" where
  "reset_during_exchange = [Send (Some ''c''), NewChat, Respond 0 (ok_text ''z''), Elapse 175]"

definition memory_sizes :: "state \<Rightarrow> nat list" where
  "memory_sizes s = map (\<lambda>c. length (memory c)) (chats s)"

text \<open>Nine exchanges in one session; a tenth question; the user opens the same session
  again from the sidebar, which ends the loading state, and asks an eleventh question; both
  answers arrive and are played back.\<close>

definition overlapping_exchanges :: "event list" where
  "overlapping_exchanges =
     concat (map exchange [0..<9]) @
     [Send (Some ''q''), OpenChat 0, Send (Some ''r''),
      Respond 27 (ok_text ''a''), Respond 28 (ok_text ''b''), Elapse 175]"

definition stop_view :: "state \<Rightarrow> nat option \<times> string \<times> bool" where
  "stop_view s = (currentChatIndex s, resultData s, loading s)"

text \<open>The first question of a fresh chat, its answer, and the first word revealed.\<close>

definition first_exchange_streaming :: "event list" where
  "first_exchange_streaming = [Send (Some ''q''), Respond 0 (ok_text ''hi there''), Elapse 0]"

text \<open>The main panel with three spaces typed into the input box.\<close>

definition blank_input :: "bool \<times> state" where
  "blank_input = (False, setInput ''   '' init)"

definition send_view :: "bool \<times> state \<Rightarrow> bool \<times> string list \<times> string" where
  "send_view p = (loading (snd p), map query (requests (snd p)), recentPrompt (snd p))"

text \<open>
  The playback a state has scheduled: its pending timers in the order they fire, each with
  its delay from now, the text displayed once it has fired and the number of messages in the
  displayed history then.
\<close>

fun timeline :: "nat \<Rightarrow> timer list \<Rightarrow> state \<Rightarrow> (nat \<times> string \<times> nat) list" where
  "timeline t0 [] s = []"
| "timeline t0 (t # ts) s =
     (case fire t s of
        Inl e \<Rightarrow> []
      | Inr s' \<Rightarrow> (due t - t0, resultData s', length (conversationHistory s')) # timeline t0 ts s')"

definition playback :: "state \<Rightarrow> (nat \<times> string \<times> nat) list" where
  "playback s = timeline (clock s) (sort_key due (timers s)) s"

definition hello_world :: "event list" where
  "hello_world = [Send (Some ''hello world''), Respond 0 (ok_text ''hi there'')]"

text \<open>The input field, the loading flag and the number of pending timers.\<close>

definition sent_view :: "state \<Rightarrow> string \<times> bool \<times> nat" where
  "sent_view s = (input s, loading s, length (timers s))"

text \<open>The first question of a fresh chat and its answer, no word revealed yet.\<close>

definition fresh_chat_answered :: "event list" where
  "fresh_chat_answered = [Send (Some ''q''), Respond 0 (ok_text ''hi there'')]"

text \<open>
  A call that fails: in a session that has one exchange, with status 503; in a fresh chat,
  with the fetch rejected.
\<close>

definition failed_in_session :: "event list" where
  "failed_in_session = exchange 0 @ [Send (Some ''b''), Respond 3 (Response 503 None None)]"

definition failed_in_fresh_chat :: "event list" where
  "failed_in_fresh_chat = [Send (Some ''b''), Respond 0 Rejected]"

section \<open>Auxiliary definitions\<close>

text \<open>
  The timers that the loop over the words sets: for the words \<open>ws\<close>, the first with index
  \<open>i\<close>, at clock \<open>c\<close>, with ids from \<open>n\<close> on.
\<close>

fun wordTimers :: "bool \<Rightarrow> nat \<Rightarrow> nat \<Rightarrow> nat \<Rightarrow> string list \<Rightarrow> timer list" where
  "wordTimers st c n i [] = []"
| "wordTimers st c n i (w # ws) =
     \<lparr> tid = n, due = c + 75 * i, cb = Reveal st (w @ '' '') \<rparr> # wordTimers st c (n + 1) (i + 1) ws"

text \<open>The fields of the exchange that a stop reads.\<close>

definition exchange_fields ::
  "state \<Rightarrow> string \<times> string \<times> nat option \<times> message list \<times> chat list" where
  "exchange_fields s =
     (resultData s, recentPrompt s, currentChatIndex s, conversationHistory s, chats s)"


section \<open>The invariant\<close>

lemmas invs = inv_def idx_inv_def full_inv_def timers_inv_def msgs_inv_def mem_inv_def ids_inv_def

lemma idx_ok_mono: "idx_ok n idx \<Longrightarrow> n \<le> m \<Longrightarrow> idx_ok m idx"
  by (cases idx) auto

lemma idx_ok_Suc [simp]: "idx_ok n idx \<Longrightarrow> idx_ok (Suc n) idx"
  by (cases idx) auto

lemma cb_ok_Suc [simp]: "cb_ok n f \<Longrightarrow> cb_ok (Suc n) f"
  by (cases f) auto

lemma cb_ok_mono: "cb_ok n f \<Longrightarrow> n \<le> m \<Longrightarrow> cb_ok m f"
  by (cases f) (auto intro: idx_ok_mono)

lemma inv_init: "inv init"
  by (simp add: invs init_def)

lemma inv_newChat: "inv s \<Longrightarrow> inv (newChat s)"
  by (simp add: invs newChat_def)

lemma inv_toggle: "inv s \<Longrightarrow> inv (toggleThinkingMode s)"
  by (simp add: invs toggleThinkingMode_def)

lemma inv_setInput: "inv s \<Longrightarrow> inv (setInput v s)"
  by (simp add: invs setInput_def)

lemma inv_openChat: "inv s \<Longrightarrow> inv (openChat i s)"
proof (cases "i < 0 \<or> int (length (chats s)) \<le> i")
  case True
  then show "inv s \<Longrightarrow> inv (openChat i s)" by (simp add: openChat_def)
next
  case False
  then have "nat i < length (chats s)" by linarith
  with False show "inv s \<Longrightarrow> inv (openChat i s)" by (simp add: invs openChat_def)
qed

lemma inv_onSent_catch: "inv s \<Longrightarrow> inv (onSent_catch q s)"
  by (auto simp add: invs onSent_catch_def exactly_one_def)

lemma inv_onSent: "inv s \<Longrightarrow> inv (onSent p s)"
  by (auto simp add: invs onSent_def onSent_catch_def clearTimeouts_def exactly_one_def Let_def split: option.splits)

lemma ball_update: "\<forall>c \<in> set xs. P c \<Longrightarrow> P y \<Longrightarrow> \<forall>c \<in> set (xs[i := y]). P c"
  by (metis insert_iff set_update_subset_insert subsetD)

lemma inv_clearTimeouts: "inv s \<Longrightarrow> inv (clearTimeouts s)"
  by (auto simp add: invs clearTimeouts_def)

lemma inv_abort: "inv s \<Longrightarrow> inv (abort s)"
  by (auto simp add: invs abort_def split: option.splits)

lemma abort_eq:
  "abort s = s\<lparr> requests := filter (\<lambda>r. Some (rid r) \<noteq> abortControllerRef s) (requests s) \<rparr>"
  by (cases "abortControllerRef s") (simp_all add: abort_def)

lemmas stop_defs = stopGeneration_def clearTimeouts_def abort_eq Let_def

lemma stop_idx_inv: "idx_inv s \<Longrightarrow> stopGeneration s = Inr s' \<Longrightarrow> idx_inv s'"
  by (auto simp add: idx_inv_def stop_defs split: option.splits if_splits)

lemma stop_full_inv: "idx_inv s \<Longrightarrow> full_inv s \<Longrightarrow> stopGeneration s = Inr s' \<Longrightarrow> full_inv s'"
  by (auto simp add: full_inv_def stop_defs  split: option.splits if_splits)

lemma stop_timers_inv: "timers_inv s \<Longrightarrow> stopGeneration s = Inr s' \<Longrightarrow> timers_inv s'"
  by (auto simp add: timers_inv_def stop_defs split: option.splits if_splits)

lemma exactly_one_simps [simp]:
  "exactly_one \<lparr> question = q, answer = Some a, graph_path = None \<rparr>"
  "exactly_one \<lparr> question = q, answer = None, graph_path = Some g \<rparr>"
  by (simp_all add: exactly_one_def)

lemma stop_msgs_inv: "msgs_inv s \<Longrightarrow> stopGeneration s = Inr s' \<Longrightarrow> msgs_inv s'"
  by (auto simp add: msgs_inv_def stop_defs nth_list_update split: option.splits if_splits)

lemma stop_mem_inv: "mem_inv s \<Longrightarrow> stopGeneration s = Inr s' \<Longrightarrow> mem_inv s'"
  by (auto simp add: mem_inv_def stop_defs nth_list_update split: option.splits if_splits)

lemma stop_ids_inv: "ids_inv s \<Longrightarrow> stopGeneration s = Inr s' \<Longrightarrow> ids_inv s'"
  by (auto simp add: ids_inv_def stop_defs split: option.splits if_splits)

lemma inv_stopGeneration: "inv s \<Longrightarrow> stopGeneration s = Inr s' \<Longrightarrow> inv s'"
  unfolding inv_def by (metis stop_idx_inv stop_full_inv stop_timers_inv stop_msgs_inv stop_mem_inv stop_ids_inv)

lemma commitGraph_idx_inv:
  "idx_inv s \<Longrightarrow> commitGraph idx q g s = Inr s' \<Longrightarrow> idx_inv s'"
  by (auto simp add: idx_inv_def commitGraph_def Let_def split: option.splits if_splits)

lemma commitGraph_full_inv:
  "idx_inv s \<Longrightarrow> full_inv s \<Longrightarrow> commitGraph idx q g s = Inr s' \<Longrightarrow> full_inv s'"
  by (auto simp add: idx_inv_def full_inv_def commitGraph_def Let_def nth_list_update split: option.splits if_splits)

lemma commitGraph_timers_inv:
  "timers_inv s \<Longrightarrow> commitGraph idx q g s = Inr s' \<Longrightarrow> timers_inv s'"
  by (auto simp add: timers_inv_def commitGraph_def Let_def split: option.splits if_splits)

lemma commitGraph_msgs_inv:
  "msgs_inv s \<Longrightarrow> commitGraph idx q g s = Inr s' \<Longrightarrow> msgs_inv s'"
  by (auto simp add: msgs_inv_def commitGraph_def Let_def nth_list_update nth_append split: option.splits if_splits)

lemma commitGraph_mem_inv:
  "mem_inv s \<Longrightarrow> commitGraph idx q g s = Inr s' \<Longrightarrow> mem_inv s'"
  by (auto simp add: mem_inv_def commitGraph_def Let_def nth_list_update nth_append memoryLimit_def split: option.splits if_splits)

lemma commitGraph_ids_inv:
  "ids_inv s \<Longrightarrow> commitGraph idx q g s = Inr s' \<Longrightarrow> ids_inv s'"
  by (auto simp add: ids_inv_def commitGraph_def Let_def split: option.splits if_splits)

lemma inv_commitGraph: "inv s \<Longrightarrow> commitGraph idx q g s = Inr s' \<Longrightarrow> inv s'"
  unfolding inv_def by (metis commitGraph_idx_inv commitGraph_full_inv commitGraph_timers_inv commitGraph_msgs_inv commitGraph_mem_inv commitGraph_ids_inv)

lemma commitText_idx_inv:
  "idx_inv s \<Longrightarrow> commitText idx q g s = Inr s' \<Longrightarrow> idx_inv s'"
  by (auto simp add: idx_inv_def commitText_def Let_def split: option.splits if_splits)

lemma commitText_full_inv:
  "idx_inv s \<Longrightarrow> full_inv s \<Longrightarrow> commitText idx q g s = Inr s' \<Longrightarrow> full_inv s'"
  by (auto simp add: idx_inv_def full_inv_def commitText_def Let_def nth_list_update memoryLimit_def split: option.splits if_splits)

lemma commitText_timers_inv:
  "timers_inv s \<Longrightarrow> commitText idx q g s = Inr s' \<Longrightarrow> timers_inv s'"
  by (auto simp add: timers_inv_def commitText_def Let_def split: option.splits if_splits)

lemma commitText_msgs_inv:
  "msgs_inv s \<Longrightarrow> commitText idx q g s = Inr s' \<Longrightarrow> msgs_inv s'"
  by (auto simp add: msgs_inv_def commitText_def Let_def nth_list_update nth_append split: option.splits if_splits)

lemma commitText_mem_inv:
  "mem_inv s \<Longrightarrow> commitText idx q g s = Inr s' \<Longrightarrow> mem_inv s'"
  by (auto simp add: mem_inv_def commitText_def Let_def nth_list_update nth_append split: option.splits if_splits)

lemma commitText_ids_inv:
  "ids_inv s \<Longrightarrow> commitText idx q g s = Inr s' \<Longrightarrow> ids_inv s'"
  by (auto simp add: ids_inv_def commitText_def Let_def split: option.splits if_splits)

lemma inv_commitText: "inv s \<Longrightarrow> commitText idx q g s = Inr s' \<Longrightarrow> inv s'"
  unfolding inv_def by (metis commitText_idx_inv commitText_full_inv commitText_timers_inv commitText_msgs_inv commitText_mem_inv commitText_ids_inv)

lemma chats_setTimeout [simp]: "chats (setTimeout f d s) = chats s"
  by (simp add: setTimeout_def)

lemma inv_setTimeout: "inv s \<Longrightarrow> cb_ok (length (chats s)) f \<Longrightarrow> inv (setTimeout f d s)"
  by (auto simp add: invs setTimeout_def)

lemma chats_scheduleWords [simp]: "chats (scheduleWords st i ws s) = chats s"
  by (induction ws arbitrary: i s) (simp_all add: delayPara_def)

lemma inv_scheduleWords: "inv s \<Longrightarrow> inv (scheduleWords st i ws s)"
  by (induction ws arbitrary: i s) (simp_all add: delayPara_def inv_setTimeout)

lemma inv_startPlayback:
  "inv s \<Longrightarrow> idx_ok (length (chats s)) (req_currentChatIndex r) \<Longrightarrow> inv (startPlayback r a s)"
  by (simp add: startPlayback_def Let_def inv_setTimeout inv_scheduleWords)

lemma inv_continue_onSent:
  assumes "inv s" and "idx_ok (length (chats s)) (req_currentChatIndex r)"
    and "continue_onSent r out s = Inr s'"
  shows "inv s'"
proof (cases out)
  case Rejected
  with assms show ?thesis by (auto simp add: continue_onSent_def inv_onSent_catch)
next
  case (Response status msg gp)
  show ?thesis
  proof (cases "200 \<le> status \<and> status \<le> 299")
    case False
    with assms Response show ?thesis by (auto simp add: continue_onSent_def inv_onSent_catch)
  next
    case True
    show ?thesis
    proof (cases "or_null gp")
      case (Some g)
      with assms(3) Response True
      have "commitGraph (req_currentChatIndex r) (query r) g s = Inr s'"
        by (simp add: continue_onSent_def)
      then show ?thesis using inv_commitGraph assms(1) by blast
    next
      case None
      with assms Response True show ?thesis
        by (cases "or_null msg")
          (auto simp add: continue_onSent_def inv_onSent_catch inv_startPlayback)
    qed
  qed
qed

lemma inv_drop_request: "inv s \<Longrightarrow> inv (s\<lparr> requests := filter P (requests s) \<rparr>)"
  by (simp add: invs)

lemma inv_respond: "inv s \<Longrightarrow> respond n out s = Inr s' \<Longrightarrow> inv s'"
proof -
  assume i: "inv s" and r: "respond n out s = Inr s'"
  show "inv s'"
  proof (cases "find (\<lambda>r. rid r = n) (requests s)")
    case None
    with r i show ?thesis by (simp add: respond_def)
  next
    case (Some q)
    then have "q \<in> set (requests s)"
      by (auto simp add: find_Some_iff)
    with i have ok: "idx_ok (length (chats s)) (req_currentChatIndex q)"
      by (simp add: inv_def idx_inv_def)
    from r Some have "continue_onSent q out (s\<lparr> requests := filter (\<lambda>q. rid q \<noteq> n) (requests s) \<rparr>) = Inr s'"
      by (simp add: respond_def)
    then show ?thesis
      using inv_continue_onSent [OF inv_drop_request [OF i]] ok by simp
  qed
qed

lemma inv_fire:
  assumes i: "inv s" and f: "fire t s = Inr s'"
  shows "inv s'"
proof -
  let ?s1 = "s\<lparr> timers := filter (\<lambda>u. tid u \<noteq> tid t) (timers s), clock := max (clock s) (due t) \<rparr>"
  have i1: "inv ?s1" using i by (simp add: invs)
  show "inv s'"
  proof (cases "cb t")
    case (Reveal st w)
    have "inv (?s1\<lparr> resultData := resultData ?s1 @ w \<rparr>)" using i by (simp add: invs)
    with f Reveal i1 show ?thesis by (cases st) (simp_all add: fire_def)
  next
    case (Finalize st idx q a)
    show ?thesis
    proof (cases st)
      case True
      with f Finalize i1 show ?thesis by (simp add: fire_def)
    next
      case False
      with f Finalize have "commitText idx q a ?s1 = Inr s'" by (simp add: fire_def)
      then show ?thesis using inv_commitText i1 by blast
    qed
  qed
qed

lemma inv_fire_all: "inv s \<Longrightarrow> fire_all ts s = Inr s' \<Longrightarrow> inv s'"
proof (induction ts arbitrary: s)
  case Nil
  then show ?case by simp
next
  case (Cons t ts)
  from Cons.prems(2) obtain s1 where s1: "fire t s = Inr s1" and r: "fire_all ts s1 = Inr s'"
    by (cases "fire t s") simp_all
  from inv_fire [OF Cons.prems(1) s1] Cons.IH r show ?case by blast
qed

lemma inv_clock: "inv s \<Longrightarrow> inv (s\<lparr> clock := c \<rparr>)"
  by (simp add: invs)

lemma inv_elapse:
  assumes "inv s" and "elapse d s = Inr s'"
  shows "inv s'"
proof -
  from assms(2) obtain s1
    where a: "fire_all (sort_key due (filter (\<lambda>t. due t \<le> clock s + d) (timers s))) s = Inr s1"
      and b: "s' = s1\<lparr> clock := clock s + d \<rparr>"
    by (auto simp add: elapse_def split: sum.splits)
  from inv_fire_all [OF assms(1) a] b show ?thesis by (simp add: inv_clock)
qed

lemma inv_step:
  assumes "inv s" and "step e s = Inr s'"
  shows "inv s'"
proof (cases e)
  case (Send p)
  with assms show ?thesis by (auto simp add: inv_onSent)
next
  case Stop
  with assms show ?thesis using inv_stopGeneration [of s s'] by simp
next
  case NewChat
  with assms show ?thesis by (auto simp add: inv_newChat)
next
  case (OpenChat i)
  with assms show ?thesis by (auto simp add: inv_openChat)
next
  case ToggleThinking
  with assms show ?thesis by (auto simp add: inv_toggle)
next
  case (SetInput v)
  with assms show ?thesis by (auto simp add: inv_setInput)
next
  case (Respond n out)
  with assms show ?thesis using inv_respond [of s n out s'] by simp
next
  case (Elapse d)
  with assms show ?thesis using inv_elapse [of s d s'] by simp
qed

lemma inv_run: "inv s \<Longrightarrow> run es s = Inr s' \<Longrightarrow> inv s'"
proof (induction es arbitrary: s)
  case Nil
  then show ?case by simp
next
  case (Cons e es)
  from Cons.prems(2) obtain s1 where s1: "step e s = Inr s1" and r: "run es s1 = Inr s'"
    by (cases "step e s") simp_all
  from inv_step [OF Cons.prems(1) s1] Cons.IH r show ?case by blast
qed

lemma inv_reachable: "run es init = Inr s \<Longrightarrow> inv s"
  using inv_run [OF inv_init] .

section \<open>Sending to a full session\<close>

text \<open>
  C7. In every state the controller can reach in which the active session's \<open>isMemoryFull\<close>
  is set, \<open>onSent\<close> returns the state as it is: messages, memory, the loading flag and the
  pending requests are all unchanged.
\<close>

theorem send_rejected_when_full:
  assumes "run es init = Inr s" and "currentChatIndex s = Some i" and "isMemoryFull (chats s ! i)"
  shows "onSent prompt s = s"
proof -
  from assms(1) have "full_inv s" using inv_reachable inv_def by blast
  with assms(2,3) have "currentChatIsFull s" by (simp add: full_inv_def)
  then show ?thesis by (simp add: onSent_def)
qed

theorem send_rejected_when_full_witness:
  "case run ten_exchanges init of
     Inl e \<Rightarrow> False
   | Inr s \<Rightarrow> currentChatIndex s = Some 0 \<and> isMemoryFull (chats s ! 0)
       \<and> onSent (Some ''one more'') s = s"
proof -
  have a: "case run ten_exchanges init of
     Inl e \<Rightarrow> False | Inr s \<Rightarrow> currentChatIndex s = Some 0 \<and> isMemoryFull (chats s ! 0)"
    by code_simp
  then obtain s where s: "run ten_exchanges init = Inr s"
    by (cases "run ten_exchanges init") simp_all
  with a have "currentChatIndex s = Some 0" "isMemoryFull (chats s ! 0)" by simp_all
  with send_rejected_when_full [OF s, of 0 "Some ''one more''"] s show ?thesis by simp
qed

section \<open>The round trip of a commit\<close>

lemma commitText_round_trip:
  assumes "idx_ok (length (chats s)) (currentChatIndex s)"
  shows "\<exists>s' j. commitText (currentChatIndex s) q a s = Inr s'
      \<and> currentChatIndex s' = Some j \<and> j < length (chats s')
      \<and> last (messages (chats s' ! j)) = \<lparr> question = q, answer = Some a, graph_path = None \<rparr>"
  using assms
  by (cases "currentChatIndex s") (simp_all add: commitText_def Let_def)

lemma commitGraph_round_trip:
  assumes "idx_ok (length (chats s)) (currentChatIndex s)"
  shows "\<exists>s' j. commitGraph (currentChatIndex s) q g s = Inr s'
      \<and> currentChatIndex s' = Some j \<and> j < length (chats s')
      \<and> last (messages (chats s' ! j)) = \<lparr> question = q, answer = None, graph_path = Some g \<rparr>"
  using assms
  by (cases "currentChatIndex s") (simp_all add: commitGraph_def Let_def)

text \<open>
  C9. In every state the controller can reach, committing a text exchange for the active
  session succeeds and the last message of the session that is active afterwards is the
  committed question with its answer and no chart; committing a chart exchange gives the
  question with its chart reference and no answer; and every message stored in a session or
  shown in the displayed history has exactly one of answer and chart reference.
\<close>

theorem commit_round_trip:
  assumes "run es init = Inr s"
  shows "(\<exists>s' j. commitText (currentChatIndex s) q a s = Inr s'
            \<and> currentChatIndex s' = Some j \<and> j < length (chats s')
            \<and> last (messages (chats s' ! j))
                = \<lparr> question = q, answer = Some a, graph_path = None \<rparr>)
       \<and> (\<exists>s' j. commitGraph (currentChatIndex s) q g s = Inr s'
            \<and> currentChatIndex s' = Some j \<and> j < length (chats s')
            \<and> last (messages (chats s' ! j))
                = \<lparr> question = q, answer = None, graph_path = Some g \<rparr>)
       \<and> (\<forall>j < length (chats s). \<forall>m \<in> set (messages (chats s ! j)). exactly_one m)
       \<and> (\<forall>m \<in> set (conversationHistory s). exactly_one m)"
proof -
  from assms have i: "inv s" by (rule inv_reachable)
  then have ok: "idx_ok (length (chats s)) (currentChatIndex s)"
    by (simp add: inv_def idx_inv_def)
  from i have "msgs_inv s" by (simp add: inv_def)
  then have "\<forall>j < length (chats s). \<forall>m \<in> set (messages (chats s ! j)). exactly_one m"
    and "\<forall>m \<in> set (conversationHistory s). exactly_one m"
    by (simp_all add: msgs_inv_def)
  with commitText_round_trip [OF ok] commitGraph_round_trip [OF ok] show ?thesis by blast
qed

theorem commit_round_trip_witness:
  "case run (exchange 0) init of
     Inl e \<Rightarrow> False
   | Inr s \<Rightarrow>
      (\<exists>s' j. commitText (currentChatIndex s) ''why'' ''because'' s = Inr s'
            \<and> currentChatIndex s' = Some j \<and> j < length (chats s')
            \<and> last (messages (chats s' ! j))
                = \<lparr> question = ''why'', answer = Some ''because'', graph_path = None \<rparr>)
       \<and> (\<exists>s' j. commitGraph (currentChatIndex s) ''why'' ''static/g.png'' s = Inr s'
            \<and> currentChatIndex s' = Some j \<and> j < length (chats s')
            \<and> last (messages (chats s' ! j))
                = \<lparr> question = ''why'', answer = None, graph_path = Some ''static/g.png'' \<rparr>)
       \<and> (\<forall>j < length (chats s). \<forall>m \<in> set (messages (chats s ! j)). exactly_one m)
       \<and> (\<forall>m \<in> set (conversationHistory s). exactly_one m)"
proof -
  have "case run (exchange 0) init of Inl e \<Rightarrow> False | Inr s \<Rightarrow> True"
    by code_simp
  then obtain s where s: "run (exchange 0) init = Inr s"
    by (cases "run (exchange 0) init") simp_all
  from commit_round_trip [OF s, of "''why''" "''because''" "''static/g.png''"] s
  show ?thesis by simp
qed

section \<open>A service call that fails\<close>

lemma onSent_accepts:
  assumes "idx_ok (length (chats s)) (currentChatIndex s)" and "\<not> currentChatIsFull s"
  shows "loading (onSent (Some p) s) \<and> requests (onSent (Some p) s) \<noteq> []
     \<and> query (last (requests (onSent (Some p) s))) = p"
  using assms
  by (cases "currentChatIndex s") (simp_all add: onSent_def clearTimeouts_def Let_def)

text \<open>
  What the \<open>catch\<close> branch does when the call of a pending request fails (the fetch
  rejects, or the status is not 2xx): the question with the apology as answer is appended
  to the displayed history, loading is off and the displayed text is empty; the sessions,
  the active index and \<open>currentChatIsFull\<close> are as before, and a further send is accepted as
  before.
\<close>

lemma failed_call_shown:
  assumes "run es init = Inr s"
    and "find (\<lambda>r. rid r = n) (requests s) = Some r"
    and "out = Rejected \<or> (\<exists>status msg gp. out = Response status msg gp \<and> \<not> (200 \<le> status \<and> status \<le> 299))"
  shows "\<exists>s'. respond n out s = Inr s'
      \<and> conversationHistory s' = conversationHistory s @
           [\<lparr> question = query r, answer = Some apology, graph_path = None \<rparr>]
      \<and> \<not> loading s' \<and> resultData s' = [] \<and> input s' = []
      \<and> chats s' = chats s \<and> currentChatIndex s' = currentChatIndex s
      \<and> currentChatIsFull s' = currentChatIsFull s
      \<and> (\<not> currentChatIsFull s \<longrightarrow>
            loading (onSent (Some p) s') \<and> requests (onSent (Some p) s') \<noteq> []
            \<and> query (last (requests (onSent (Some p) s'))) = p)"
proof -
  let ?s1 = "s\<lparr> requests := filter (\<lambda>q. rid q \<noteq> n) (requests s) \<rparr>"
  let ?s' = "onSent_catch (query r) ?s1"
  from assms(3) have c: "continue_onSent r out ?s1 = Inr ?s'"
    by (auto simp add: continue_onSent_def)
  with assms(2) have r: "respond n out s = Inr ?s'"
    by (simp add: respond_def)
  from assms(1) have "inv s" by (rule inv_reachable)
  then have "idx_ok (length (chats ?s')) (currentChatIndex ?s')"
    by (simp add: inv_def idx_inv_def onSent_catch_def)
  from onSent_accepts [OF this, of p] r show ?thesis
    by (simp add: onSent_catch_def)
qed

text \<open>
  C6. The \<open>catch\<close> branch calls \<open>setConversationHistory\<close> only, where the commits of
  \<open>stopGeneration\<close> and of the chart and text answers also call \<open>setChats\<close>: the exchange with
  the apology is shown but stored in no session. In a session with one exchange, after a
  call that fails with status 503 the displayed history has the apology, the stored messages
  and the memory of the session are as before, and opening the session again shows the
  history without the apology; in a fresh chat, after a rejected fetch, no session exists.
  Loading is off and no timer is pending.
\<close>

theorem apology_not_stored:
  "map_sum id sessions_view (run (exchange 0) init)
     = Inr (Some 0, [text_msg ''q'' ''a''], [[text_msg ''q'' ''a'']])
   \<and> map_sum id sessions_view (run failed_in_session init)
     = Inr (Some 0,
            [text_msg ''q'' ''a'',
             text_msg ''b'' ''Sorry, I'm having trouble connecting to my backend.''],
            [[text_msg ''q'' ''a'']])
   \<and> map_sum id memory_sizes (run failed_in_session init) = Inr [1]
   \<and> map_sum id sessions_view (run (failed_in_session @ [OpenChat 0]) init)
     = Inr (Some 0, [text_msg ''q'' ''a''], [[text_msg ''q'' ''a'']])
   \<and> map_sum id sessions_view (run failed_in_fresh_chat init)
     = Inr (None, [text_msg ''b'' ''Sorry, I'm having trouble connecting to my backend.''], [])
   \<and> map_sum id sent_view (run failed_in_session init) = Inr ([], False, 0)"
  by code_simp


section \<open>An exchange that outlives a switch or a reset\<close>

text \<open>
  C1. \<open>openChat\<close> and \<open>newChat\<close> clear neither the timers nor the pending request (only
  \<open>stopGeneration\<close> and the start of \<open>onSent\<close> do). With two sessions, a question asked in the
  second one and the first one opened while the call is pending, the answer that arrives
  later is played back and committed: it is appended to the history displayed for the first
  session and stored in the second. After \<open>newChat\<close> during the call, the late answer creates
  a session and makes it active.
\<close>

theorem stale_answer_after_switch:
  "map_sum id sessions_view (run two_sessions init)
     = Inr (Some 1, [text_msg ''b'' ''y''], [[text_msg ''a'' ''x''], [text_msg ''b'' ''y'']])
   \<and> map_sum id sessions_view (run switch_during_exchange init)
     = Inr (Some 0, [text_msg ''a'' ''x'', text_msg ''c'' ''z''],
            [[text_msg ''a'' ''x''], [text_msg ''b'' ''y'', text_msg ''c'' ''z'']])
   \<and> map_sum id sessions_view (run reset_during_exchange init)
     = Inr (Some 0, [text_msg ''c'' ''z''], [[text_msg ''c'' ''z'']])"
  by code_simp

section \<open>The memory limit\<close>

text \<open>
  What holds of the limit on every run: a session whose memory has reached the limit is
  marked full (part of the invariant), and the mark is never taken back.
\<close>

lemma flags_kept_same: "chats s' = chats s \<Longrightarrow> flags_kept s s'"
  by (simp add: flags_kept_def)

lemma flags_kept_trans: "flags_kept s s1 \<Longrightarrow> flags_kept s1 s2 \<Longrightarrow> flags_kept s s2"
  by (auto simp add: flags_kept_def)

lemma chats_onSent [simp]: "chats (onSent p s) = chats s"
  by (simp add: onSent_def onSent_catch_def clearTimeouts_def Let_def split: option.splits)

lemma chats_openChat [simp]: "chats (openChat i s) = chats s"
  by (simp add: openChat_def)

lemma chats_startPlayback [simp]: "chats (startPlayback r a s) = chats s"
  by (simp add: startPlayback_def Let_def)

lemma flags_kept_stop: "stopGeneration s = Inr s' \<Longrightarrow> flags_kept s s'"
  by (auto simp add: flags_kept_def stop_defs nth_list_update split: option.splits if_splits)

lemma flags_kept_commitGraph: "commitGraph idx q g s = Inr s' \<Longrightarrow> flags_kept s s'"
  by (auto simp add: flags_kept_def commitGraph_def Let_def nth_list_update nth_append
      split: option.splits if_splits)

lemma flags_kept_commitText: "commitText idx q a s = Inr s' \<Longrightarrow> flags_kept s s'"
  by (auto simp add: flags_kept_def commitText_def Let_def nth_list_update nth_append
      split: option.splits if_splits)

lemma flags_kept_continue: "continue_onSent r out s = Inr s' \<Longrightarrow> flags_kept s s'"
  by (auto simp add: continue_onSent_def onSent_catch_def flags_kept_commitGraph
      split: outcome.splits if_splits option.splits intro!: flags_kept_same)

lemma flags_kept_respond:
  assumes "respond n out s = Inr s'"
  shows "flags_kept s s'"
proof (cases "find (\<lambda>r. rid r = n) (requests s)")
  case None
  with assms show ?thesis by (simp add: respond_def flags_kept_same)
next
  case (Some r)
  with assms have "flags_kept (s\<lparr> requests := filter (\<lambda>q. rid q \<noteq> n) (requests s) \<rparr>) s'"
    by (simp add: respond_def flags_kept_continue)
  then show ?thesis by (simp add: flags_kept_def)
qed

lemma flags_kept_fire:
  assumes "fire t s = Inr s'"
  shows "flags_kept s s'"
proof (cases "cb t")
  case (Reveal st w)
  with assms show ?thesis by (cases st) (auto simp add: fire_def intro!: flags_kept_same)
next
  case (Finalize st idx q a)
  show ?thesis
  proof (cases st)
    case True
    with assms Finalize show ?thesis by (auto simp add: fire_def intro!: flags_kept_same)
  next
    case False
    with assms Finalize have "flags_kept
        (s\<lparr> timers := filter (\<lambda>u. tid u \<noteq> tid t) (timers s), clock := max (clock s) (due t) \<rparr>) s'"
      by (simp add: fire_def flags_kept_commitText)
    then show ?thesis by (simp add: flags_kept_def)
  qed
qed

lemma flags_kept_fire_all: "fire_all ts s = Inr s' \<Longrightarrow> flags_kept s s'"
proof (induction ts arbitrary: s)
  case Nil
  then show ?case by (simp add: flags_kept_same)
next
  case (Cons t ts)
  from Cons.prems obtain s1 where s1: "fire t s = Inr s1" and r: "fire_all ts s1 = Inr s'"
    by (cases "fire t s") simp_all
  from flags_kept_fire [OF s1] Cons.IH [OF r] show ?case by (rule flags_kept_trans)
qed

lemma flags_kept_elapse:
  assumes "elapse d s = Inr s'"
  shows "flags_kept s s'"
proof -
  from assms obtain s1
    where a: "fire_all (sort_key due (filter (\<lambda>t. due t \<le> clock s + d) (timers s))) s = Inr s1"
      and b: "s' = s1\<lparr> clock := clock s + d \<rparr>"
    by (auto simp add: elapse_def split: sum.splits)
  from flags_kept_fire_all [OF a] b show ?thesis by (simp add: flags_kept_def)
qed

lemma flags_kept_step:
  assumes "step e s = Inr s'"
  shows "flags_kept s s'"
proof (cases e)
  case (Send p)
  with assms show ?thesis by (auto intro!: flags_kept_same)
next
  case Stop
  with assms show ?thesis by (simp add: flags_kept_stop)
next
  case NewChat
  with assms show ?thesis by (auto simp add: newChat_def intro!: flags_kept_same)
next
  case (OpenChat i)
  with assms show ?thesis by (auto intro!: flags_kept_same)
next
  case ToggleThinking
  with assms show ?thesis by (auto simp add: toggleThinkingMode_def intro!: flags_kept_same)
next
  case (SetInput v)
  with assms show ?thesis by (auto simp add: setInput_def intro!: flags_kept_same)
next
  case (Respond n out)
  with assms show ?thesis by (simp add: flags_kept_respond)
next
  case (Elapse d)
  with assms show ?thesis by (simp add: flags_kept_elapse)
qed

lemma flags_kept_run: "run es s = Inr s' \<Longrightarrow> flags_kept s s'"
proof (induction es arbitrary: s)
  case Nil
  then show ?case by (simp add: flags_kept_same)
next
  case (Cons e es)
  from Cons.prems obtain s1 where s1: "step e s = Inr s1" and r: "run es s1 = Inr s'"
    by (cases "step e s") simp_all
  from flags_kept_step [OF s1] Cons.IH [OF r] show ?case by (rule flags_kept_trans)
qed

lemma full_once_full_forever:
  assumes "run es init = Inr s" and "run es' s = Inr s'"
    and "j < length (chats s)" and "memoryLimit \<le> length (memory (chats s ! j))"
  shows "j < length (chats s') \<and> isMemoryFull (chats s ! j) \<and> isMemoryFull (chats s' ! j)"
proof -
  from assms(1) have "mem_inv s" using inv_reachable inv_def by blast
  with assms(3,4) have f: "isMemoryFull (chats s ! j)" by (simp add: mem_inv_def)
  from flags_kept_run [OF assms(2)] assms(3) f show ?thesis by (auto simp add: flags_kept_def)
qed

text \<open>
  C2. Two exchanges of the same session can be pending together, since opening a session
  ends the loading state without cancelling the call; each commits into the session it
  captured. After nine exchanges, two overlapping ones leave eleven entries in the memory of
  the session, above the limit of ten.
\<close>

theorem memory_exceeds_limit:
  "map_sum id memory_sizes (run (concat (map exchange [0..<9])) init) = Inr [9]
   \<and> map_sum id memory_sizes (run overlapping_exchanges init) = Inr [11]
   \<and> memoryLimit = 10"
  by code_simp

section \<open>Stopping the first exchange of a fresh chat\<close>

text \<open>
  C4. In the first exchange of a fresh chat the active index is still null when words are
  being revealed; \<open>stopGeneration\<close> then reads the session list at that index and throws.
\<close>

theorem stop_in_first_exchange_throws:
  "map_sum id stop_view (run first_exchange_streaming init) = Inr (None, ''hi '', True)
   \<and> run (first_exchange_streaming @ [Stop]) init = Inl TypeError"
  by code_simp

section \<open>A blank query\<close>

text \<open>
  C8. \<open>onSent\<close> does not look at the query. The Enter key sends only when the trimmed input is
  not empty, but the send icon is shown for any non-empty input and calls \<open>handleSend\<close>: with
  three spaces typed, a click sets loading and issues a request whose query is the three
  spaces, while Enter leaves the state as it is.
\<close>

theorem blank_query_is_sent:
  "trim (input (snd blank_input)) = []
   \<and> sendIconShown (snd blank_input)
   \<and> send_view blank_input = (False, [], [])
   \<and> send_view (handleSend blank_input) = (True, [''   ''], ''   '')
   \<and> handleKeyPress ''Enter'' blank_input = blank_input"
  by code_simp

section \<open>Stopping a playback\<close>


lemma clock_scheduleWords [simp]: "clock (scheduleWords st i ws s) = clock s"
  by (induction ws arbitrary: i s) (simp_all add: delayPara_def setTimeout_def)

lemma nextId_scheduleWords [simp]: "nextId (scheduleWords st i ws s) = nextId s + length ws"
  by (induction ws arbitrary: i s) (simp_all add: delayPara_def setTimeout_def)

lemma exchange_fields_setTimeout [simp]:
  "exchange_fields (setTimeout f d s) = exchange_fields s"
  by (simp add: exchange_fields_def setTimeout_def)

lemma exchange_fields_scheduleWords [simp]:
  "exchange_fields (scheduleWords st i ws s) = exchange_fields s"
  by (induction ws arbitrary: i s) (simp_all add: delayPara_def)


lemma exchange_fields_startPlayback [simp]:
  "exchange_fields (startPlayback r a s) = exchange_fields s"
  by (simp add: startPlayback_def Let_def)

lemma length_wordTimers [simp]: "length (wordTimers st c n i ws) = length ws"
  by (induction ws arbitrary: n i) simp_all








lemma filter_snoc_fresh:
  "\<forall>x \<in> set xs. P x \<Longrightarrow> \<not> P y \<Longrightarrow> filter P (xs @ [y]) = xs"
  by (induction xs) simp_all





text \<open>
  The discarding stop in a fresh chat, where no session exists: the answer has arrived and
  no word is revealed yet.
\<close>

lemma stop_before_first_word_in_fresh_chat:
  "map_sum id stop_view (run fresh_chat_answered init) = Inr (None, [], True)
   \<and> map_sum id sessions_view (run (fresh_chat_answered @ [Stop]) init) = Inr (None, [], [])
   \<and> map_sum id sent_view (run (fresh_chat_answered @ [Stop]) init) = Inr (''q'', False, 0)"
  by code_simp


section \<open>The schedule of a playback\<close>

text \<open>
  C5, as amended. For the answer "hi there" to the question "hello world", the word with
  index \<open>i\<close>, counted from zero, is due \<open>75 * i\<close> after the playback starts: the text "hi " is
  displayed at 0, "hi there " at 75, and the exchange is committed at \<open>75 * 2 + 100 = 250\<close>,
  when the displayed text is emptied and the history has its first message.
\<close>

theorem playback_hi_there:
  "map_sum id playback (run hello_world init)
     = Inr [(0, ''hi '', 0), (75, ''hi there '', 0), (250, [], 1)]"
  by code_simp

text \<open>
  C5 as it was stated, with "hi " at 75 and "hi there " at 150, is not the schedule.
\<close>

theorem playback_hi_there_counterexample:
  "map_sum id playback (run hello_world init)
     \<noteq> Inr [(75, ''hi '', 0), (150, ''hi there '', 0), (250, [], 1)]"
  by code_simp

section \<open>Switching to a session that does not exist\<close>


text \<open>
  C10. For every index outside \<open>[0, length (chats s))\<close>, \<open>openChat\<close> returns the state as it
  is: the active index, the sessions and all the exchange state are unchanged.
\<close>

theorem openChat_out_of_range:
  "index < 0 \<or> int (length (chats s)) \<le> index \<Longrightarrow> openChat index s = s"
  by (simp add: openChat_def)

theorem openChat_out_of_range_witness:
  "((5::int) < 0 \<or> int (length (chats init)) \<le> 5) \<and> openChat 5 init = init"
  using openChat_out_of_range [of 5 init] by (simp add: init_def)

end
